theory Spec2Isabelle
  imports Main "HOL-Library.AList"
begin

section \<open>Data model (src/lib/storage.ts, lines 23-45)\<close>

text \<open>
  A timestamp is the instant that the ISO-8601 text written by \<open>new Date().toISOString()\<close>
  denotes, in milliseconds since the epoch: \<open>new Date(text).getTime()\<close> reads the same number
  back, so the text and the number are identified.
\<close>

type_synonym timestamp = int

datatype role = User | Assistant

record ChatMessage =
  role :: role
  content :: string
  timestamp :: timestamp

datatype riskLevel = Low | Medium | High

text \<open>
  What \<open>evaluateMentalHealth\<close> returns (the object parsed from the provider's answer), and the
  stored evaluation, which adds \<open>evaluatedAt\<close>.
\<close>

record EvaluationResult =
  wellnessScore :: int
  emotionalState :: string
  keyConcerns :: "string list"
  riskLevel :: riskLevel
  recommendations :: "string list"
  summary :: string

record Evaluation = EvaluationResult +
  evaluatedAt :: timestamp

text \<open>The field \<open>id\<close> of the source is \<open>id_field\<close> here (\<open>id\<close> is the identity of HOL).\<close>

record ChatSession =
  id_field :: string
  messages :: "ChatMessage list"
  evaluation :: "Evaluation option"
  createdAt :: timestamp
  updatedAt :: timestamp

section \<open>Errors and the file system\<close>

datatype js_error = Error string | SyntaxError | ENOENT

fun error_message :: "js_error \<Rightarrow> string" where
  "error_message (Error m) = m"
| "error_message SyntaxError = ''Unexpected token''"
| "error_message ENOENT = ''ENOENT: no such file or directory''"

text \<open>
  The text of a file is kept up to what \<open>JSON.parse\<close> makes of it: \<open>Json s\<close> is the text
  \<open>JSON.stringify(s, null, 2)\<close> (or any text that parses to the session \<open>s\<close>), and
  \<open>Unparseable t\<close> is a text \<open>t\<close> on which \<open>JSON.parse\<close> throws. A text that parses to
  a value that is not a session record is not represented: the code writes none.
\<close>

datatype file_content = Json ChatSession | Unparseable string

definition JSON_stringify :: "ChatSession \<Rightarrow> file_content" where
  "JSON_stringify s = Json s"

fun JSON_parse :: "file_content \<Rightarrow> js_error + ChatSession" where
  "JSON_parse (Json s) = Inr s"
| "JSON_parse (Unparseable t) = Inl SyntaxError"

text \<open>
  The storage directory \<open>STORAGE_DIR\<close> is either missing (\<open>None\<close>) or holds files, listed in
  the order \<open>readdirSync\<close> returns them, each under its file name. The operating system is
  taken to let the process read and write this directory; a missing directory, a missing
  file and an unparseable file are the failures of the model.
\<close>

type_synonym directory = "(string \<times> file_content) list"
type_synonym fs = "directory option"

text \<open>The files the store holds; a missing directory holds none.\<close>

definition stored :: "fs \<Rightarrow> directory" where
  "stored fs = (case fs of None \<Rightarrow> [] | Some d \<Rightarrow> d)"

definition existsSync :: "string \<Rightarrow> fs \<Rightarrow> bool" where
  "existsSync p fs = (case fs of None \<Rightarrow> False | Some d \<Rightarrow> map_of d p \<noteq> None)"

definition readFileSync :: "string \<Rightarrow> fs \<Rightarrow> js_error + file_content" where
  "readFileSync p fs =
     (case fs of
        None \<Rightarrow> Inl ENOENT
      | Some d \<Rightarrow> (case map_of d p of None \<Rightarrow> Inl ENOENT | Some c \<Rightarrow> Inr c))"

definition writeFileSync :: "string \<Rightarrow> file_content \<Rightarrow> fs \<Rightarrow> js_error + fs" where
  "writeFileSync p c fs =
     (case fs of None \<Rightarrow> Inl ENOENT | Some d \<Rightarrow> Inr (Some (AList.update p c d)))"


definition readdirSync :: "fs \<Rightarrow> js_error + string list" where
  "readdirSync fs = (case fs of None \<Rightarrow> Inl ENOENT | Some d \<Rightarrow> Inr (map fst d))"

definition endsWith :: "string \<Rightarrow> string \<Rightarrow> bool" where
  "endsWith s suf = (length suf \<le> length s \<and> drop (length s - length suf) s = suf)"

section \<open>The session store (src/lib/storage.ts)\<close>

definition initializeStorage :: "fs \<Rightarrow> fs" where
  "initializeStorage fs = (if fs = None then Some [] else fs)"

text \<open>The file name inside \<open>STORAGE_DIR\<close>.\<close>

definition getSessionPath :: "string \<Rightarrow> string" where
  "getSessionPath sessionId = sessionId @ ''.json''"

text \<open>Decimal text of a number, as a template literal renders \<open>Date.now()\<close>.\<close>

definition digit_char :: "nat \<Rightarrow> char" where
  "digit_char d = char_of (48 + d)"

fun digits :: "nat \<Rightarrow> string" where
  "digits n = (if n < 10 then [digit_char n] else digits (n div 10) @ [digit_char (n mod 10)])"

declare digits.simps [simp del]

definition number_text :: "int \<Rightarrow> string" where
  "number_text i = (if i < 0 then CHR ''-'' # digits (nat (- i)) else digits (nat i))"

text \<open>
  \<open>createChatSession\<close>: \<open>now\<close> is the value of \<open>Date.now()\<close>, \<open>rnd\<close> the characters
  \<open>Math.random().toString(36).substring(2, 9)\<close> (the floating-point draw rendered in base 36
  is taken as it comes), \<open>t1\<close> and \<open>t2\<close> the two readings of \<open>new Date()\<close>.
\<close>

definition session_id_of :: "int \<Rightarrow> string \<Rightarrow> string" where
  "session_id_of now rnd = ''session_'' @ number_text now @ ''_'' @ rnd"

definition createChatSession ::
  "int \<Rightarrow> string \<Rightarrow> timestamp \<Rightarrow> timestamp \<Rightarrow> fs \<Rightarrow> js_error + (string \<times> fs)" where
  "createChatSession now rnd t1 t2 fs =
     (let fs1 = initializeStorage fs;
          ident = session_id_of now rnd;
          session = \<lparr>id_field = ident, messages = [], evaluation = None,
                     createdAt = t1, updatedAt = t2\<rparr>
      in case writeFileSync (getSessionPath ident) (JSON_stringify session) fs1 of
           Inl e \<Rightarrow> Inl e
         | Inr fs2 \<Rightarrow> Inr (ident, fs2))"

definition getChatSession :: "string \<Rightarrow> fs \<Rightarrow> ChatSession option \<times> fs" where
  "getChatSession ident fs =
     (let fs1 = initializeStorage fs;
          filePath = getSessionPath ident
      in if \<not> existsSync filePath fs1 then (None, fs1)
         else (case readFileSync filePath fs1 of
                 Inl e \<Rightarrow> (None, fs1)
               | Inr data \<Rightarrow>
                   (case JSON_parse data of
                      Inl e \<Rightarrow> (None, fs1)
                    | Inr s \<Rightarrow> (Some s, fs1))))"

definition addMessage ::
  "string \<Rightarrow> role \<Rightarrow> string \<Rightarrow> timestamp \<Rightarrow> timestamp \<Rightarrow> fs \<Rightarrow> js_error + fs" where
  "addMessage sessionId r c t1 t2 fs =
     (case getChatSession sessionId fs of
        (None, fs1) \<Rightarrow> Inr fs1
      | (Some session, fs1) \<Rightarrow>
          (let session1 = session\<lparr>messages := messages session @
                              [\<lparr>role = r, content = c, timestamp = t1\<rparr>]\<rparr>;
               session2 = session1\<lparr>updatedAt := t2\<rparr>
           in writeFileSync (getSessionPath sessionId) (JSON_stringify session2) fs1))"

definition updateEvaluation :: "string \<Rightarrow> Evaluation option \<Rightarrow> fs \<Rightarrow> js_error + fs" where
  "updateEvaluation sessionId ev fs =
     (case getChatSession sessionId fs of
        (None, fs1) \<Rightarrow> Inr fs1
      | (Some session, fs1) \<Rightarrow>
          (let session1 = session\<lparr>evaluation := ev\<rparr>
           in writeFileSync (getSessionPath sessionId) (JSON_stringify session1) fs1))"

text \<open>The \<open>for\<close> loop of \<open>getAllSessions\<close>; an exception leaves the loop.\<close>

fun read_sessions :: "string list \<Rightarrow> fs \<Rightarrow> ChatSession list \<Rightarrow> js_error + ChatSession list" where
  "read_sessions [] fs sessions = Inr sessions"
| "read_sessions (file # files) fs sessions =
     (if endsWith file ''.json'' then
        (case readFileSync file fs of
           Inl e \<Rightarrow> Inl e
         | Inr data \<Rightarrow>
             (case JSON_parse data of
                Inl e \<Rightarrow> Inl e
              | Inr s \<Rightarrow> read_sessions files fs (sessions @ [s])))
      else read_sessions files fs sessions)"

text \<open>
  \<open>Array.prototype.sort\<close> is stable; with the comparator \<open>time b - time a\<close> it orders by
  \<open>updatedAt\<close>, latest first.
\<close>

definition getAllSessions :: "fs \<Rightarrow> ChatSession list \<times> fs" where
  "getAllSessions fs =
     (let fs1 = initializeStorage fs
      in case readdirSync fs1 of
           Inl e \<Rightarrow> ([], fs1)
         | Inr files \<Rightarrow>
             (case read_sessions files fs1 [] of
                Inl e \<Rightarrow> ([], fs1)
              | Inr sessions \<Rightarrow> (sort_key (\<lambda>s. - updatedAt s) sessions, fs1)))"


section \<open>The AI client (src/lib/gemini.ts)\<close>

text \<open>
  The provider is an oracle: \<open>generateContent g prompt\<close> is the text of the answer to
  \<open>prompt\<close> (\<open>model.generateContent\<close> followed by \<open>response.text()\<close>), or the error the call
  throws. The fixed instruction texts of the two prompts are parameters, and so is
  \<open>JSON.parse\<close> on the extracted text (\<open>None\<close> when it throws).
\<close>

record gemini =
  systemPrompt :: string
  evaluationPrompt_head :: string
  evaluationPrompt_tail :: string
  generateContent :: "string \<Rightarrow> js_error + string"
  parseEvaluation :: "string \<Rightarrow> EvaluationResult option"

definition newline :: string where
  "newline = [CHR 0x0A]"

fun join_lines :: "string list \<Rightarrow> string" where
  "join_lines [] = []"
| "join_lines [x] = x"
| "join_lines (x # y # ys) = x @ newline @ join_lines (y # ys)"

definition speaker_line :: "role \<times> string \<Rightarrow> string" where
  "speaker_line m = (if fst m = User then ''User'' else ''Therapist'') @ '': '' @ snd m"

definition generateTherapyResponse :: "gemini \<Rightarrow> (role \<times> string) list \<Rightarrow> js_error + string" where
  "generateTherapyResponse g msgs =
     (let conversationHistory = join_lines (map speaker_line msgs);
          prompt = systemPrompt g @ newline @ newline @ ''Conversation:'' @ newline @
                   conversationHistory @ newline @ newline @ ''Therapist:''
      in case generateContent g prompt of
           Inl e \<Rightarrow> Inl (Error (''Failed to generate response: '' @ error_message e))
         | Inr text \<Rightarrow> Inr text)"

text \<open>
  \<open>text.match(/\{[\s\S]*\}/)\<close>: the leftmost match starts at the first opening brace, and the
  greedy star runs to the last closing brace behind it.
\<close>

definition json_match :: "string \<Rightarrow> string option" where
  "json_match text =
     (case dropWhile (\<lambda>c. c \<noteq> CHR ''{'') text of
        [] \<Rightarrow> None
      | b # rest \<Rightarrow>
          (if CHR ''}'' \<in> set rest
           then Some (b # rev (dropWhile (\<lambda>c. c \<noteq> CHR ''}'') (rev rest)))
           else None))"

text \<open>The body of the \<open>try\<close> block of \<open>evaluateMentalHealth\<close> (lines 200-214).\<close>

definition evaluateMentalHealth_try :: "gemini \<Rightarrow> string \<Rightarrow> js_error + EvaluationResult" where
  "evaluateMentalHealth_try g conversation =
     (let evaluationPrompt = evaluationPrompt_head g @ conversation @ evaluationPrompt_tail g
      in case generateContent g evaluationPrompt of
           Inl e \<Rightarrow> Inl e
         | Inr text \<Rightarrow>
             (case json_match text of
                None \<Rightarrow> Inl (Error ''Invalid evaluation format'')
              | Some jsonMatch \<Rightarrow>
                  (case parseEvaluation g jsonMatch of
                     None \<Rightarrow> Inl SyntaxError
                   | Some v \<Rightarrow> Inr v)))"

text \<open>The \<open>catch\<close> block (lines 215-219) logs the error and throws a new one.\<close>

definition evaluateMentalHealth :: "gemini \<Rightarrow> string \<Rightarrow> js_error + EvaluationResult" where
  "evaluateMentalHealth g conversation =
     (case evaluateMentalHealth_try g conversation of
        Inl e \<Rightarrow> Inl (Error ''Failed to evaluate conversation'')
      | Inr v \<Rightarrow> Inr v)"

section \<open>The chat message handler (src/app/api/chat/message/route.ts)\<close>

text \<open>
  The request body after \<open>request.json()\<close>: a field is \<open>None\<close> when it is absent or null,
  and a string otherwise. A request is \<open>None\<close> when \<open>request.json()\<close> throws.
\<close>

record body =
  sessionId :: "string option"
  message :: "string option"

type_synonym request = "body option"

datatype response = Success string | Failure nat string

text \<open>What a run does besides answering: the calls it makes, in order.\<close>

datatype event =
    Called_generateTherapyResponse "(role \<times> string) list"
  | Called_evaluateMentalHealth string
  | Called_updateEvaluation string Evaluation
  | Logged_evaluation_error js_error

record outcome =
  answer :: response
  store :: fs
  events :: "event list"

definition with_evaluatedAt :: "EvaluationResult \<Rightarrow> timestamp \<Rightarrow> Evaluation" where
  "with_evaluatedAt e t =
     \<lparr>wellnessScore = wellnessScore e, emotionalState = emotionalState e,
      keyConcerns = keyConcerns e, riskLevel = riskLevel e,
      recommendations = recommendations e, summary = summary e, evaluatedAt = t\<rparr>"

definition conversationText :: "ChatMessage list \<Rightarrow> string" where
  "conversationText ms = join_lines (map (\<lambda>msg. speaker_line (role msg, content msg)) ms)"

text \<open>Step 3 (lines 76-79): only role and content go to the AI client.\<close>

definition format_messages :: "ChatMessage list \<Rightarrow> (role \<times> string) list" where
  "format_messages ms = map (\<lambda>msg. (role msg, content msg)) ms"

text \<open>
  \<open>clock k\<close> is the k-th reading of \<open>new Date()\<close> during the request: 0 and 1 in the first
  \<open>addMessage\<close>, 2 and 3 in the second, 4 for \<open>evaluatedAt\<close>.
\<close>

text \<open>The inner \<open>try\<close> block of step 6 (lines 99-106): the store it leaves, or the error.\<close>

definition evaluation_try ::
  "gemini \<Rightarrow> (nat \<Rightarrow> timestamp) \<Rightarrow> string \<Rightarrow> string \<Rightarrow> fs \<Rightarrow> (js_error + fs) \<times> event list" where
  "evaluation_try g clock sid text fs =
     (case evaluateMentalHealth g text of
        Inl e \<Rightarrow> (Inl e, [Called_evaluateMentalHealth text])
      | Inr ev \<Rightarrow>
          (let stamped = with_evaluatedAt ev (clock 4)
           in (updateEvaluation sid (Some stamped) fs,
               [Called_evaluateMentalHealth text, Called_updateEvaluation sid stamped])))"

text \<open>Step 6 (lines 92-111).\<close>

definition evaluation_step ::
  "gemini \<Rightarrow> (nat \<Rightarrow> timestamp) \<Rightarrow> string \<Rightarrow> fs \<Rightarrow> fs \<times> event list" where
  "evaluation_step g clock sid fs =
     (case getChatSession sid fs of
        (None, fs1) \<Rightarrow> (fs1, [])
      | (Some finalSession, fs1) \<Rightarrow>
          (if length (messages finalSession) \<ge> 5 \<and> length (messages finalSession) mod 5 = 0
           then (case evaluation_try g clock sid (conversationText (messages finalSession)) fs1 of
                   (Inl e, evs) \<Rightarrow> (fs1, evs @ [Logged_evaluation_error e])
                 | (Inr fs2, evs) \<Rightarrow> (fs2, evs))
           else (fs1, [])))"

text \<open>Steps 4 to 7: the \<open>try\<close> of lines 83-114 and its \<open>catch\<close> of lines 115-122.\<close>

definition reply_step ::
  "gemini \<Rightarrow> (nat \<Rightarrow> timestamp) \<Rightarrow> string \<Rightarrow> (role \<times> string) list \<Rightarrow> fs \<Rightarrow> outcome" where
  "reply_step g clock sid msgs fs =
     (case generateTherapyResponse g msgs of
        Inl e \<Rightarrow>
          \<lparr>answer = Failure 500 ''Failed to generate response from AI'', store = fs,
           events = [Called_generateTherapyResponse msgs]\<rparr>
      | Inr response \<Rightarrow>
          (case addMessage sid Assistant response (clock 2) (clock 3) fs of
             Inl e \<Rightarrow>
               \<lparr>answer = Failure 500 ''Failed to generate response from AI'', store = fs,
                events = [Called_generateTherapyResponse msgs]\<rparr>
           | Inr fs1 \<Rightarrow>
               (case evaluation_step g clock sid fs1 of
                  (fs2, evs) \<Rightarrow>
                    \<lparr>answer = Success response, store = fs2,
                     events = Called_generateTherapyResponse msgs # evs\<rparr>)))"

definition POST :: "gemini \<Rightarrow> (nat \<Rightarrow> timestamp) \<Rightarrow> request \<Rightarrow> fs \<Rightarrow> outcome" where
  "POST g clock request fs =
     (case request of
        None \<Rightarrow> \<lparr>answer = Failure 500 ''Failed to process message'', store = fs, events = []\<rparr>
      | Some b \<Rightarrow>
          (case (sessionId b, message b) of
             (Some sid, Some msg) \<Rightarrow>
               (if sid = [] \<or> msg = [] then
                  \<lparr>answer = Failure 400 ''Session ID and message are required'',
                   store = fs, events = []\<rparr>
                else
                  (case getChatSession sid fs of
                     (None, fs1) \<Rightarrow>
                       \<lparr>answer = Failure 404 ''Session not found'', store = fs1, events = []\<rparr>
                   | (Some session, fs1) \<Rightarrow>
                       (case addMessage sid User msg (clock 0) (clock 1) fs1 of
                          Inl e \<Rightarrow>
                            \<lparr>answer = Failure 500 ''Failed to process message'',
                             store = fs1, events = []\<rparr>
                        | Inr fs2 \<Rightarrow>
                            (case getChatSession sid fs2 of
                               (None, fs3) \<Rightarrow>
                                 \<lparr>answer = Failure 404 ''Session not found'',
                                  store = fs3, events = []\<rparr>
                             | (Some updatedSession, fs3) \<Rightarrow>
                                 reply_step g clock sid
                                   (format_messages (messages updatedSession)) fs3))))
           | _ \<Rightarrow>
               \<lparr>answer = Failure 400 ''Session ID and message are required'',
                store = fs, events = []\<rparr>))"

section \<open>The admin detail handler (GET /api/admin/sessions/[id], src/unnamed/part_001)\<close>



section \<open>Reading a decimal text back\<close>

text \<open>The number that a text of decimal digits denotes; it inverts \<open>digits\<close>.\<close>

definition digits_value :: "string \<Rightarrow> nat" where
  "digits_value cs = foldl (\<lambda>a c. 10 * a + (of_char c - 48)) 0 cs"

section \<open>Concrete inputs\<close>

text \<open>
  A store with one session of three messages, a provider that answers every prompt with a
  sentence that holds no JSON object, one that rejects every prompt, and a clock.
\<close>

abbreviation example_session :: ChatSession where
  "example_session \<equiv>
     \<lparr>id_field = ''s1'',
      messages = [\<lparr>role = User, content = ''hi'', timestamp = 1\<rparr>,
                  \<lparr>role = Assistant, content = ''hello'', timestamp = 2\<rparr>,
                  \<lparr>role = User, content = ''sad'', timestamp = 3\<rparr>],
      evaluation = None, createdAt = 0, updatedAt = 3\<rparr>"

abbreviation example_store :: fs where
  "example_store \<equiv> Some [(''s1.json'', Json example_session)]"

text \<open>The same store with a second record that does not parse.\<close>

abbreviation half_corrupt_store :: fs where
  "half_corrupt_store \<equiv>
     Some [(''s1.json'', Json example_session), (''s2.json'', Unparseable ''{oops'')]"

abbreviation example_gemini :: gemini where
  "example_gemini \<equiv>
     \<lparr>systemPrompt = ''Be kind.'', evaluationPrompt_head = ''Assess: '',
      evaluationPrompt_tail = '' End.'',
      generateContent = (\<lambda>prompt. Inr ''I hear you.''),
      parseEvaluation = (\<lambda>text. None)\<rparr>"

abbreviation failing_gemini :: gemini where
  "failing_gemini \<equiv>
     \<lparr>systemPrompt = ''Be kind.'', evaluationPrompt_head = ''Assess: '',
      evaluationPrompt_tail = '' End.'',
      generateContent = (\<lambda>prompt. Inl (Error ''503 Service Unavailable'')),
      parseEvaluation = (\<lambda>text. None)\<rparr>"

abbreviation example_evaluation :: Evaluation where
  "example_evaluation \<equiv>
     \<lparr>wellnessScore = 55, emotionalState = ''Low and tired'', keyConcerns = [''sleep''],
      riskLevel = Low, recommendations = [''rest''], summary = ''Mild distress.'',
      evaluatedAt = 14\<rparr>"

abbreviation example_clock :: "nat \<Rightarrow> timestamp" where
  "example_clock \<equiv> (\<lambda>k. 10 + int k)"

abbreviation example_request :: request where
  "example_request \<equiv> Some \<lparr>sessionId = Some ''s1'', message = Some ''why''\<rparr>"

section \<open>Reading and writing one session\<close>

lemma stored_Some [simp]: "stored (Some d) = d"
  by (simp add: stored_def)

lemma stored_initializeStorage [simp]: "stored (initializeStorage fs) = stored fs"
  by (simp add: stored_def initializeStorage_def split: option.splits)

lemma initializeStorage_Some [simp]: "initializeStorage (Some d) = Some d"
  by (simp add: initializeStorage_def)

lemma initializeStorage_stored: "initializeStorage fs = Some (stored fs)"
  by (simp add: stored_def initializeStorage_def split: option.splits)

lemma getChatSession_eq:
  "getChatSession sid fs =
     ((case map_of (stored fs) (getSessionPath sid) of Some (Json s) \<Rightarrow> Some s | _ \<Rightarrow> None),
      initializeStorage fs)"
  by (auto simp: getChatSession_def stored_def initializeStorage_def existsSync_def
      readFileSync_def Let_def split: option.splits file_content.splits)

lemma getChatSession_found:
  "fst (getChatSession sid fs) = Some s \<longleftrightarrow>
     map_of (stored fs) (getSessionPath sid) = Some (Json s)"
  by (auto simp: getChatSession_eq split: option.splits file_content.splits)

lemma getChatSession_written [simp]:
  "getChatSession sid (Some (AList.update (getSessionPath sid) (Json s) d)) =
     (Some s, Some (AList.update (getSessionPath sid) (Json s) d))"
  by (simp add: getChatSession_eq update_conv')

lemma addMessage_found:
  assumes "fst (getChatSession sid fs) = Some s"
  shows "addMessage sid r c t1 t2 fs =
     Inr (Some (AList.update (getSessionPath sid)
        (Json (s\<lparr>messages := messages s @ [\<lparr>role = r, content = c, timestamp = t1\<rparr>],
                 updatedAt := t2\<rparr>)) (stored fs)))"
  using assms
  by (auto simp: addMessage_def getChatSession_eq writeFileSync_def JSON_stringify_def
      initializeStorage_stored split: option.splits file_content.splits)

lemma updateEvaluation_found:
  assumes "fst (getChatSession sid fs) = Some s"
  shows "updateEvaluation sid ev fs =
     Inr (Some (AList.update (getSessionPath sid) (Json (s\<lparr>evaluation := ev\<rparr>)) (stored fs)))"
  using assms
  by (auto simp: updateEvaluation_def getChatSession_eq writeFileSync_def JSON_stringify_def
      initializeStorage_stored split: option.splits file_content.splits)

section \<open>The evaluation step of the handler\<close>


lemma evaluation_try_store:
  assumes "fst (getChatSession sid fs) = Some fin"
    and "evaluation_try g clock sid text fs = (Inr fs', evs)"
  shows "\<exists>ev. fs' = Some (AList.update (getSessionPath sid) (Json (fin\<lparr>evaluation := ev\<rparr>)) (stored fs))"
  using assms
  by (auto simp: evaluation_try_def updateEvaluation_found Let_def split: sum.splits)



lemma session_same_evaluation: "\<exists>ev. fin = fin\<lparr>evaluation := ev\<rparr>"
  by (rule exI [of _ "evaluation fin"]) simp

lemma evaluation_step_session:
  assumes "fst (getChatSession sid fs) = Some fin"
  shows "\<exists>ev. fst (getChatSession sid (fst (evaluation_step g clock sid fs))) =
           Some (fin\<lparr>evaluation := ev\<rparr>)"
proof -
  have fs: "getChatSession sid fs = (Some fin, initializeStorage fs)"
    using assms by (simp add: getChatSession_eq split: option.splits file_content.splits)
  have fin': "fst (getChatSession sid (initializeStorage fs)) = Some fin"
    using assms by (simp add: getChatSession_found)
  obtain r evs where
    t: "evaluation_try g clock sid (conversationText (messages fin)) (initializeStorage fs) = (r, evs)"
    by (cases "evaluation_try g clock sid (conversationText (messages fin)) (initializeStorage fs)")
  have "fst (evaluation_step g clock sid fs) = initializeStorage fs
      \<or> (\<exists>fs2. r = Inr fs2 \<and> fst (evaluation_step g clock sid fs) = fs2)"
    by (cases r) (simp_all add: evaluation_step_def fs t)
  then consider (unchanged) "fst (evaluation_step g clock sid fs) = initializeStorage fs"
    | (stored_ev) fs2 where "r = Inr fs2" "fst (evaluation_step g clock sid fs) = fs2"
    by blast
  then show ?thesis
  proof cases
    case unchanged
    then show ?thesis using fin' session_same_evaluation [of fin] by auto
  next
    case stored_ev
    with evaluation_try_store [OF fin'] t obtain ev where
      "fs2 = Some (AList.update (getSessionPath sid) (Json (fin\<lparr>evaluation := ev\<rparr>))
                     (stored (initializeStorage fs)))"
      by blast
    then show ?thesis using stored_ev by auto
  qed
qed


section \<open>The runs of the handler\<close>

lemma reply_step_failure:
  assumes "generateTherapyResponse g msgs = Inl e"
  shows "reply_step g clock sid msgs fs =
     \<lparr>answer = Failure 500 ''Failed to generate response from AI'', store = fs,
      events = [Called_generateTherapyResponse msgs]\<rparr>"
  using assms by (simp add: reply_step_def)

lemma reply_step_success:
  assumes "generateTherapyResponse g msgs = Inr reply"
    and "addMessage sid Assistant reply (clock 2) (clock 3) fs = Inr fs1"
  shows "reply_step g clock sid msgs fs =
     \<lparr>answer = Success reply, store = fst (evaluation_step g clock sid fs1),
      events = Called_generateTherapyResponse msgs # snd (evaluation_step g clock sid fs1)\<rparr>"
  using assms by (simp add: reply_step_def split: prod.splits)



lemma POST_valid:
  assumes "fst (getChatSession sid fs) = Some s" "sid \<noteq> []" "msg \<noteq> []"
  shows "POST g clock (Some \<lparr>sessionId = Some sid, message = Some msg\<rparr>) fs =
     reply_step g clock sid (format_messages (messages s) @ [(User, msg)])
       (Some (AList.update (getSessionPath sid)
          (Json (s\<lparr>messages := messages s @ [\<lparr>role = User, content = msg, timestamp = clock 0\<rparr>],
                   updatedAt := clock 1\<rparr>)) (stored fs)))"
proof -
  have fs: "getChatSession sid fs = (Some s, initializeStorage fs)"
    using assms by (simp add: getChatSession_eq split: option.splits file_content.splits)
  have fin': "fst (getChatSession sid (initializeStorage fs)) = Some s"
    using assms by (simp add: getChatSession_found)
  show ?thesis using assms(2,3)
    by (simp add: POST_def fs addMessage_found [OF fin'] format_messages_def)
qed



text \<open>
  The run on a well-formed request for a stored session, when the reply is generated: both
  messages are appended, and the evaluation step runs on the store that holds them.
\<close>

lemma POST_replied:
  assumes found: "fst (getChatSession sid fs) = Some s" and ne: "sid \<noteq> []" "msg \<noteq> []"
    and gen: "generateTherapyResponse g (format_messages (messages s) @ [(User, msg)]) = Inr reply"
  obtains fs1 fs2 where
    "addMessage sid User msg (clock 0) (clock 1) fs = Inr fs1"
    "addMessage sid Assistant reply (clock 2) (clock 3) fs1 = Inr fs2"
    "initializeStorage fs2 = fs2"
    "fst (getChatSession sid fs2) =
       Some (s\<lparr>messages := messages s @ [\<lparr>role = User, content = msg, timestamp = clock 0\<rparr>,
                                          \<lparr>role = Assistant, content = reply, timestamp = clock 2\<rparr>],
               updatedAt := clock 3\<rparr>)"
    "POST g clock (Some \<lparr>sessionId = Some sid, message = Some msg\<rparr>) fs =
      \<lparr>answer = Success reply, store = fst (evaluation_step g clock sid fs2),
       events = Called_generateTherapyResponse (format_messages (messages s) @ [(User, msg)])
                # snd (evaluation_step g clock sid fs2)\<rparr>"
proof -
  define s1 where
    "s1 = s\<lparr>messages := messages s @ [\<lparr>role = User, content = msg, timestamp = clock 0\<rparr>],
            updatedAt := clock 1\<rparr>"
  define s2 where
    "s2 = s1\<lparr>messages := messages s1 @ [\<lparr>role = Assistant, content = reply, timestamp = clock 2\<rparr>],
             updatedAt := clock 3\<rparr>"
  define fs1 where "fs1 = Some (AList.update (getSessionPath sid) (Json s1) (stored fs))"
  define fs2 where "fs2 = Some (AList.update (getSessionPath sid) (Json s2) (stored fs1))"
  have a1: "addMessage sid User msg (clock 0) (clock 1) fs = Inr fs1"
    unfolding fs1_def s1_def by (rule addMessage_found [OF found])
  have f1: "fst (getChatSession sid fs1) = Some s1"
    by (simp add: fs1_def)
  have a2: "addMessage sid Assistant reply (clock 2) (clock 3) fs1 = Inr fs2"
    unfolding fs2_def s2_def by (rule addMessage_found [OF f1])
  have i2: "initializeStorage fs2 = fs2"
    by (simp add: fs2_def)
  have f2: "fst (getChatSession sid fs2) =
       Some (s\<lparr>messages := messages s @ [\<lparr>role = User, content = msg, timestamp = clock 0\<rparr>,
                                          \<lparr>role = Assistant, content = reply, timestamp = clock 2\<rparr>],
               updatedAt := clock 3\<rparr>)"
    by (simp add: fs2_def s2_def s1_def)
  have "POST g clock (Some \<lparr>sessionId = Some sid, message = Some msg\<rparr>) fs =
      \<lparr>answer = Success reply, store = fst (evaluation_step g clock sid fs2),
       events = Called_generateTherapyResponse (format_messages (messages s) @ [(User, msg)])
                # snd (evaluation_step g clock sid fs2)\<rparr>"
    unfolding POST_valid [OF found ne]
    using reply_step_success [OF gen, of sid clock fs1 fs2] a2
    by (simp add: fs1_def s1_def)
  with a1 a2 i2 f2 show thesis by (rule that)
qed

text \<open>Evaluation of the handler on the concrete inputs.\<close>

lemmas run_defs = POST_def reply_step_def evaluation_step_def evaluation_try_def
  evaluateMentalHealth_def evaluateMentalHealth_try_def json_match_def
  generateTherapyResponse_def addMessage_def updateEvaluation_def getChatSession_def
  initializeStorage_def existsSync_def readFileSync_def writeFileSync_def
  getSessionPath_def JSON_stringify_def format_messages_def conversationText_def
  speaker_line_def newline_def with_evaluatedAt_def Let_def

lemma example_found: "fst (getChatSession ''s1'' example_store) = Some example_session"
  by (simp add: run_defs)

lemma example_gen:
  "generateTherapyResponse example_gemini
     (format_messages (messages example_session) @ [(User, ''why'')]) = Inr ''I hear you.''"
  by (simp add: run_defs)

lemma failing_gen:
  "generateTherapyResponse failing_gemini
     (format_messages (messages example_session) @ [(User, ''why'')]) =
   Inl (Error ''Failed to generate response: 503 Service Unavailable'')"
  by (simp add: run_defs)

section \<open>The evaluation trigger\<close>



section \<open>The two appended messages\<close>

text \<open>
  Claim C2. For a request with a non-empty session identifier of a stored session and a
  non-empty message, when the reply is generated, the session in the store the run leaves
  holds the messages it held before, followed by the user's message and then by the
  assistant's reply.
\<close>

theorem message_appends_user_then_assistant:
  assumes "fst (getChatSession sid fs) = Some s" and "sid \<noteq> []" and "msg \<noteq> []"
    and "generateTherapyResponse g (format_messages (messages s) @ [(User, msg)]) = Inr reply"
  shows "\<exists>s'. fst (getChatSession sid
                   (store (POST g clock (Some \<lparr>sessionId = Some sid, message = Some msg\<rparr>) fs))) = Some s' \<and>
           messages s' = messages s @
             [\<lparr>role = User, content = msg, timestamp = clock 0\<rparr>,
              \<lparr>role = Assistant, content = reply, timestamp = clock 2\<rparr>]"
proof -
  from POST_replied [OF assms, of clock] obtain fs2 where
    f2: "fst (getChatSession sid fs2) =
       Some (s\<lparr>messages := messages s @ [\<lparr>role = User, content = msg, timestamp = clock 0\<rparr>,
                                          \<lparr>role = Assistant, content = reply, timestamp = clock 2\<rparr>],
               updatedAt := clock 3\<rparr>)"
    and post: "POST g clock (Some \<lparr>sessionId = Some sid, message = Some msg\<rparr>) fs =
      \<lparr>answer = Success reply, store = fst (evaluation_step g clock sid fs2),
       events = Called_generateTherapyResponse (format_messages (messages s) @ [(User, msg)])
                # snd (evaluation_step g clock sid fs2)\<rparr>"
    by metis
  from evaluation_step_session [OF f2, of g clock] show ?thesis
    unfolding post by auto
qed

theorem message_appends_witness:
  "\<exists>s'. fst (getChatSession ''s1''
      (store (POST example_gemini example_clock example_request example_store))) = Some s' \<and>
    messages s' = messages example_session @
      [\<lparr>role = User, content = ''why'', timestamp = 10\<rparr>,
       \<lparr>role = Assistant, content = ''I hear you.'', timestamp = 12\<rparr>]"
  using message_appends_user_then_assistant [OF example_found _ _ example_gen, of example_clock]
  by simp

section \<open>Failure of the reply\<close>

text \<open>
  Claim C3. When \<open>generateTherapyResponse\<close> fails, the handler answers 500 and appends
  nothing more: the store is the one the first \<open>addMessage\<close> left, whose session ends with
  the user's message, and the only call made is the one that failed (no assistant message,
  no evaluation).
\<close>

theorem reply_failure_leaves_unanswered_user_turn:
  assumes found: "fst (getChatSession sid fs) = Some s" and ne: "sid \<noteq> []" "msg \<noteq> []"
    and gen: "generateTherapyResponse g (format_messages (messages s) @ [(User, msg)]) = Inl e"
  shows "\<exists>fs1. addMessage sid User msg (clock 0) (clock 1) fs = Inr fs1 \<and>
           POST g clock (Some \<lparr>sessionId = Some sid, message = Some msg\<rparr>) fs =
             \<lparr>answer = Failure 500 ''Failed to generate response from AI'', store = fs1,
              events = [Called_generateTherapyResponse (format_messages (messages s) @ [(User, msg)])]\<rparr> \<and>
           fst (getChatSession sid fs1) =
             Some (s\<lparr>messages := messages s @ [\<lparr>role = User, content = msg, timestamp = clock 0\<rparr>],
                     updatedAt := clock 1\<rparr>)"
  unfolding POST_valid [OF found ne] reply_step_failure [OF gen] addMessage_found [OF found]
  by simp

theorem reply_failure_witness:
  "answer (POST failing_gemini example_clock example_request example_store) =
     Failure 500 ''Failed to generate response from AI'' \<and>
   events (POST failing_gemini example_clock example_request example_store) =
     [Called_generateTherapyResponse (format_messages (messages example_session) @ [(User, ''why'')])]"
proof -
  from reply_failure_leaves_unanswered_user_turn [OF example_found _ _ failing_gen, of example_clock]
  obtain fs1 where "POST failing_gemini example_clock example_request example_store =
     \<lparr>answer = Failure 500 ''Failed to generate response from AI'', store = fs1,
      events = [Called_generateTherapyResponse
                  (format_messages (messages example_session) @ [(User, ''why'')])]\<rparr>"
    by auto
  then show ?thesis by simp
qed

section \<open>Failure of the evaluation\<close>



section \<open>Sessions without a record\<close>







section \<open>Deleting a session\<close>




section \<open>Listing the sessions\<close>

lemma read_sessions_abort:
  "f \<in> set files \<Longrightarrow> endsWith f ''.json'' \<Longrightarrow> readFileSync f fs = Inr (Unparseable t) \<Longrightarrow>
     \<exists>e. read_sessions files fs acc = Inl e"
proof (induction files arbitrary: acc)
  case Nil
  then show ?case by simp
next
  case (Cons name rest)
  show ?case
  proof (cases "name = f")
    case True
    then show ?thesis using Cons.prems by simp
  next
    case False
    with Cons.prems have "f \<in> set rest" by simp
    from Cons.IH [OF this Cons.prems(2,3)] show ?thesis
      by (auto split: sum.splits)
  qed
qed

lemma read_sessions_all:
  "\<forall>f \<in> set files. endsWith f ''.json'' \<longrightarrow> (\<exists>s. readFileSync f fs = Inr (Json s)) \<Longrightarrow>
     \<exists>ss. read_sessions files fs acc = Inr (acc @ ss) \<and>
          length ss = length (filter (\<lambda>f. endsWith f ''.json'') files) \<and>
          set ss = {s. \<exists>f \<in> set files. endsWith f ''.json'' \<and> readFileSync f fs = Inr (Json s)}"
proof (induction files arbitrary: acc)
  case Nil
  then show ?case by simp
next
  case (Cons name rest)
  then have rest: "\<forall>f \<in> set rest. endsWith f ''.json'' \<longrightarrow> (\<exists>s. readFileSync f fs = Inr (Json s))"
    by simp
  show ?case
  proof (cases "endsWith name ''.json''")
    case False
    from Cons.IH [OF rest, of acc] obtain ss where
      "read_sessions rest fs acc = Inr (acc @ ss)"
      "length ss = length (filter (\<lambda>f. endsWith f ''.json'') rest)"
      "set ss = {s. \<exists>f \<in> set rest. endsWith f ''.json'' \<and> readFileSync f fs = Inr (Json s)}"
      by blast
    with False show ?thesis by auto
  next
    case True
    with Cons.prems obtain s where s: "readFileSync name fs = Inr (Json s)" by auto
    from Cons.IH [OF rest, of "acc @ [s]"] obtain ss where
      ss: "read_sessions rest fs (acc @ [s]) = Inr ((acc @ [s]) @ ss)"
      "length ss = length (filter (\<lambda>f. endsWith f ''.json'') rest)"
      "set ss = {s. \<exists>f \<in> set rest. endsWith f ''.json'' \<and> readFileSync f fs = Inr (Json s)}"
      by blast
    have "read_sessions (name # rest) fs acc = Inr (acc @ (s # ss))"
      using True s ss(1) by simp
    moreover have "length (s # ss) = length (filter (\<lambda>f. endsWith f ''.json'') (name # rest))"
      using True ss(2) by simp
    moreover have "set (s # ss) =
        {s. \<exists>f \<in> set (name # rest). endsWith f ''.json'' \<and> readFileSync f fs = Inr (Json s)}"
      using True s ss(3) by auto
    ultimately show ?thesis by blast
  qed
qed

lemma readFileSync_initializeStorage [simp]:
  "readFileSync f (initializeStorage fs) = readFileSync f fs"
  by (simp add: readFileSync_def initializeStorage_def split: option.splits)

lemma read_sessions_initializeStorage [simp]:
  "read_sessions files (initializeStorage fs) acc = read_sessions files fs acc"
  by (induction files arbitrary: acc) (simp_all split: sum.splits)

lemma getAllSessions_eq:
  "fst (getAllSessions fs) =
     (case read_sessions (map fst (stored fs)) fs [] of
        Inl e \<Rightarrow> []
      | Inr sessions \<Rightarrow> sort_key (\<lambda>s. - updatedAt s) sessions)"
proof -
  have "readdirSync (initializeStorage fs) = Inr (map fst (stored fs))"
    by (simp add: readdirSync_def initializeStorage_stored)
  then show ?thesis
    by (simp add: getAllSessions_def Let_def split: sum.splits)
qed

text \<open>
  Claim C5, as the code has it. The \<open>try\<close> of \<open>getAllSessions\<close> encloses the whole loop: as
  soon as one \<open>.json\<close> file of the directory does not parse, the listing is empty, whatever
  the other files hold. Only when every \<open>.json\<close> file parses does it return the sessions,
  one for each such file, latest \<open>updatedAt\<close> first.
\<close>

theorem getAllSessions_all_or_nothing:
  "((\<exists>f \<in> fst ` set (stored fs). endsWith f ''.json'' \<and>
        (\<exists>t. readFileSync f fs = Inr (Unparseable t))) \<longrightarrow>
      fst (getAllSessions fs) = []) \<and>
   ((\<forall>f \<in> fst ` set (stored fs). endsWith f ''.json'' \<longrightarrow>
        (\<exists>s. readFileSync f fs = Inr (Json s))) \<longrightarrow>
      set (fst (getAllSessions fs)) =
        {s. \<exists>f \<in> fst ` set (stored fs). endsWith f ''.json'' \<and> readFileSync f fs = Inr (Json s)} \<and>
      length (fst (getAllSessions fs)) =
        length (filter (\<lambda>f. endsWith f ''.json'') (map fst (stored fs))) \<and>
      sorted_wrt (\<lambda>a b. updatedAt a \<ge> updatedAt b) (fst (getAllSessions fs)))"
proof (intro conjI impI)
  assume "\<exists>f \<in> fst ` set (stored fs). endsWith f ''.json'' \<and>
        (\<exists>t. readFileSync f fs = Inr (Unparseable t))"
  then obtain f t where "f \<in> set (map fst (stored fs))" "endsWith f ''.json''"
    "readFileSync f fs = Inr (Unparseable t)"
    by auto
  from read_sessions_abort [OF this, of "[]"] show "fst (getAllSessions fs) = []"
    by (auto simp: getAllSessions_eq)
next
  assume "\<forall>f \<in> fst ` set (stored fs). endsWith f ''.json'' \<longrightarrow>
        (\<exists>s. readFileSync f fs = Inr (Json s))"
  then have "\<forall>f \<in> set (map fst (stored fs)). endsWith f ''.json'' \<longrightarrow>
        (\<exists>s. readFileSync f fs = Inr (Json s))"
    by simp
  from read_sessions_all [OF this, of "[]"] obtain ss where
    ss: "read_sessions (map fst (stored fs)) fs [] = Inr ss"
    "length ss = length (filter (\<lambda>f. endsWith f ''.json'') (map fst (stored fs)))"
    "set ss = {s. \<exists>f \<in> set (map fst (stored fs)). endsWith f ''.json'' \<and> readFileSync f fs = Inr (Json s)}"
    by auto
  have res: "fst (getAllSessions fs) = sort_key (\<lambda>s. - updatedAt s) ss"
    by (simp add: getAllSessions_eq ss(1))
  show "set (fst (getAllSessions fs)) =
        {s. \<exists>f \<in> fst ` set (stored fs). endsWith f ''.json'' \<and> readFileSync f fs = Inr (Json s)}"
    using ss(3) by (simp add: res)
  show "length (fst (getAllSessions fs)) =
        length (filter (\<lambda>f. endsWith f ''.json'') (map fst (stored fs)))"
    using ss(2) by (simp add: res)
  have "sorted (map (\<lambda>s. - updatedAt s) (sort_key (\<lambda>s. - updatedAt s) ss))"
    by (rule sorted_sort_key)
  then show "sorted_wrt (\<lambda>a b. updatedAt a \<ge> updatedAt b) (fst (getAllSessions fs))"
    by (simp add: res sorted_map)
qed

theorem getAllSessions_witness:
  "fst (getAllSessions half_corrupt_store) = [] \<and>
   fst (getAllSessions example_store) = [example_session]"
proof -
  have bad: "\<exists>f \<in> fst ` set (stored half_corrupt_store). endsWith f ''.json'' \<and>
        (\<exists>t. readFileSync f half_corrupt_store = Inr (Unparseable t))"
    by (simp add: readFileSync_def endsWith_def)
  have good: "\<forall>f \<in> fst ` set (stored example_store). endsWith f ''.json'' \<longrightarrow>
        (\<exists>s. readFileSync f example_store = Inr (Json s))"
    by (simp add: readFileSync_def endsWith_def)
  have "set (fst (getAllSessions example_store)) = {example_session}"
    and "length (fst (getAllSessions example_store)) = 1"
    using getAllSessions_all_or_nothing [of example_store] good
    by (auto simp: readFileSync_def endsWith_def)
  then have "fst (getAllSessions example_store) = [example_session]"
    by (cases "fst (getAllSessions example_store)") auto
  moreover have "fst (getAllSessions half_corrupt_store) = []"
    using getAllSessions_all_or_nothing [of half_corrupt_store] bad by blast
  ultimately show ?thesis by simp
qed

text \<open>
  The claim as stated fails: with one record that parses and one that does not, the listing
  is empty and the session that parses is not returned.
\<close>

theorem getAllSessions_aborts_counterexample:
  "JSON_parse (Json example_session) = Inr example_session \<and>
   JSON_parse (Unparseable ''{oops'') = Inl SyntaxError \<and>
   readdirSync half_corrupt_store = Inr [''s1.json'', ''s2.json''] \<and>
   getAllSessions half_corrupt_store = ([], half_corrupt_store)"
  by (simp add: getAllSessions_def readdirSync_def readFileSync_def endsWith_def
      initializeStorage_def)

section \<open>Storing an evaluation\<close>

lemma readFileSync_update:
  "readFileSync f (Some (AList.update p c d)) = (if f = p then Inr c else readFileSync f (Some d))"
  by (simp add: readFileSync_def update_conv')

lemma insort_key_map:
  assumes "\<And>y. k (h y) = k y"
  shows "insort_key k (h x) (map h xs) = map h (insort_key k x xs)"
  by (induction xs) (simp_all add: assms)

lemma sort_key_map:
  assumes "\<And>y. k (h y) = k y"
  shows "sort_key k (map h xs) = map h (sort_key k xs)"
  by (induction xs) (simp_all add: insort_key_map [of k h, OF assms])

lemma read_sessions_update:
  assumes "map_of d p = Some (Json s)"
  shows "map (\<lambda>x. x\<lparr>evaluation := None\<rparr>) acc' = map (\<lambda>x. x\<lparr>evaluation := None\<rparr>) acc \<Longrightarrow>
     map_sum id (map (\<lambda>x. x\<lparr>evaluation := None\<rparr>))
       (read_sessions files (Some (AList.update p (Json (s\<lparr>evaluation := ev\<rparr>)) d)) acc') =
     map_sum id (map (\<lambda>x. x\<lparr>evaluation := None\<rparr>)) (read_sessions files (Some d) acc)"
proof (induction files arbitrary: acc acc')
  case Nil
  then show ?case by simp
next
  case (Cons name rest)
  show ?case
  proof (cases "endsWith name ''.json''")
    case False
    then show ?thesis using Cons by simp
  next
    case json: True
    show ?thesis
    proof (cases "name = p")
      case True
      have "read_sessions (name # rest) (Some (AList.update p (Json (s\<lparr>evaluation := ev\<rparr>)) d)) acc'
          = read_sessions rest (Some (AList.update p (Json (s\<lparr>evaluation := ev\<rparr>)) d))
              (acc' @ [s\<lparr>evaluation := ev\<rparr>])"
        using json True by (simp add: readFileSync_update)
      moreover have "read_sessions (name # rest) (Some d) acc
          = read_sessions rest (Some d) (acc @ [s])"
        using json True assms by (simp add: readFileSync_def)
      moreover have "map (\<lambda>x. x\<lparr>evaluation := None\<rparr>) (acc' @ [s\<lparr>evaluation := ev\<rparr>])
          = map (\<lambda>x. x\<lparr>evaluation := None\<rparr>) (acc @ [s])"
        using Cons.prems by simp
      ultimately show ?thesis using Cons.IH by simp
    next
      case False
      have same: "readFileSync name (Some (AList.update p (Json (s\<lparr>evaluation := ev\<rparr>)) d))
          = readFileSync name (Some d)"
        using False by (simp add: readFileSync_update)
      show ?thesis
      proof (cases "readFileSync name (Some d)")
        case (Inl e)
        then show ?thesis using json same by simp
      next
        case (Inr data)
        show ?thesis
        proof (cases data)
          case (Json x)
          have "map (\<lambda>x. x\<lparr>evaluation := None\<rparr>) (acc' @ [x])
              = map (\<lambda>x. x\<lparr>evaluation := None\<rparr>) (acc @ [x])"
            using Cons.prems by simp
          from Cons.IH [OF this] show ?thesis using json same Inr Json by simp
        next
          case (Unparseable t)
          then show ?thesis using json same Inr by simp
        qed
      qed
    qed
  qed
qed

lemma getAllSessions_update:
  assumes "map_of d p = Some (Json s)"
  shows "map (\<lambda>x. x\<lparr>evaluation := None\<rparr>)
           (fst (getAllSessions (Some (AList.update p (Json (s\<lparr>evaluation := ev\<rparr>)) d)))) =
         map (\<lambda>x. x\<lparr>evaluation := None\<rparr>) (fst (getAllSessions (Some d)))"
proof -
  have keys: "map fst (AList.update p (Json (s\<lparr>evaluation := ev\<rparr>)) d) = map fst d"
    using assms by (auto simp: update_keys dest: map_of_SomeD intro: rev_image_eqI)
  have rd: "map_sum id (map (\<lambda>x. x\<lparr>evaluation := None\<rparr>))
       (read_sessions (map fst d) (Some (AList.update p (Json (s\<lparr>evaluation := ev\<rparr>)) d)) []) =
     map_sum id (map (\<lambda>x. x\<lparr>evaluation := None\<rparr>)) (read_sessions (map fst d) (Some d) [])"
    by (rule read_sessions_update [OF assms]) simp
  have srt: "\<And>xs. map (\<lambda>x. x\<lparr>evaluation := None\<rparr>) (sort_key (\<lambda>s. - updatedAt s) xs)
     = sort_key (\<lambda>s. - updatedAt s) (map (\<lambda>x. x\<lparr>evaluation := None\<rparr>) xs)"
    by (rule sort_key_map [symmetric]) simp
  show ?thesis
    using rd
    by (cases "read_sessions (map fst d) (Some (AList.update p (Json (s\<lparr>evaluation := ev\<rparr>)) d)) []";
        cases "read_sessions (map fst d) (Some d) []")
      (simp_all add: getAllSessions_def readdirSync_def keys srt)
qed

text \<open>
  Claim C10. On a stored session \<open>updateEvaluation\<close> replaces the evaluation and nothing
  else: the record read back is the old one with the new evaluation, so its identifier,
  messages, \<open>createdAt\<close> and \<open>updatedAt\<close> are the same, and \<open>getAllSessions\<close> lists the same
  sessions with the same \<open>updatedAt\<close> in the same order. \<open>addMessage\<close>, in contrast, sets
  \<open>updatedAt\<close> to its second clock reading.
\<close>

theorem updateEvaluation_changes_only_evaluation:
  assumes "fst (getChatSession sid fs) = Some s"
  shows "(\<exists>fs'. updateEvaluation sid ev fs = Inr fs' \<and>
            fst (getChatSession sid fs') = Some (s\<lparr>evaluation := ev\<rparr>) \<and>
            map (\<lambda>x. (id_field x, updatedAt x)) (fst (getAllSessions fs')) =
            map (\<lambda>x. (id_field x, updatedAt x)) (fst (getAllSessions fs))) \<and>
         (\<exists>fs' s'. addMessage sid r c t1 t2 fs = Inr fs' \<and>
            fst (getChatSession sid fs') = Some s' \<and> updatedAt s' = t2)"
proof -
  have look: "map_of (stored fs) (getSessionPath sid) = Some (Json s)"
    using assms by (simp add: getChatSession_found)
  then have fs: "fs = Some (stored fs)"
    by (cases fs) (simp_all add: stored_def)
  let ?fs' = "Some (AList.update (getSessionPath sid) (Json (s\<lparr>evaluation := ev\<rparr>)) (stored fs))"
  have "map (\<lambda>x. x\<lparr>evaluation := None\<rparr>) (fst (getAllSessions ?fs')) =
        map (\<lambda>x. x\<lparr>evaluation := None\<rparr>) (fst (getAllSessions (Some (stored fs))))"
    by (rule getAllSessions_update [OF look])
  then have "map ((\<lambda>x. (id_field x, updatedAt x)) \<circ> (\<lambda>x. x\<lparr>evaluation := None\<rparr>))
               (fst (getAllSessions ?fs')) =
             map ((\<lambda>x. (id_field x, updatedAt x)) \<circ> (\<lambda>x. x\<lparr>evaluation := None\<rparr>))
               (fst (getAllSessions (Some (stored fs))))"
    unfolding map_map [symmetric] by simp
  then have "map (\<lambda>x. (id_field x, updatedAt x)) (fst (getAllSessions ?fs')) =
           map (\<lambda>x. (id_field x, updatedAt x)) (fst (getAllSessions fs))"
    using fs by (simp add: comp_def)
  then have "\<exists>fs'. updateEvaluation sid ev fs = Inr fs' \<and>
            fst (getChatSession sid fs') = Some (s\<lparr>evaluation := ev\<rparr>) \<and>
            map (\<lambda>x. (id_field x, updatedAt x)) (fst (getAllSessions fs')) =
            map (\<lambda>x. (id_field x, updatedAt x)) (fst (getAllSessions fs))"
    by (simp add: updateEvaluation_found [OF assms])
  moreover have "\<exists>fs' s'. addMessage sid r c t1 t2 fs = Inr fs' \<and>
            fst (getChatSession sid fs') = Some s' \<and> updatedAt s' = t2"
    by (simp add: addMessage_found [OF assms])
  ultimately show ?thesis by blast
qed

theorem updateEvaluation_witness:
  "\<exists>fs'. updateEvaluation ''s1'' (Some example_evaluation) example_store = Inr fs' \<and>
     fst (getChatSession ''s1'' fs') =
       Some (example_session\<lparr>evaluation := Some example_evaluation\<rparr>) \<and>
     map (\<lambda>x. (id_field x, updatedAt x)) (fst (getAllSessions fs')) =
     map (\<lambda>x. (id_field x, updatedAt x)) (fst (getAllSessions example_store))"
  using updateEvaluation_changes_only_evaluation [OF example_found, of "Some example_evaluation"]
  by blast

section \<open>Failures of the evaluation call\<close>

lemma dropWhile_reaches:
  "\<exists>r'. dropWhile (\<lambda>c. c \<noteq> x) (a @ x # r) = x # r' \<and> set r \<subseteq> set r'"
proof (induction a)
  case Nil
  then show ?case by simp
next
  case (Cons y a)
  then show ?case by (cases "y = x") auto
qed

lemma json_match_None_iff:
  "json_match reply_text = None \<longleftrightarrow> \<not> (\<exists>a b c. reply_text = a @ CHR ''{'' # b @ CHR ''}'' # c)"
proof
  assume none: "json_match reply_text = None"
  show "\<not> (\<exists>a b c. reply_text = a @ CHR ''{'' # b @ CHR ''}'' # c)"
  proof
    assume "\<exists>a b c. reply_text = a @ CHR ''{'' # b @ CHR ''}'' # c"
    then obtain a b c where split: "reply_text = a @ CHR ''{'' # (b @ CHR ''}'' # c)" by auto
    from dropWhile_reaches [of "CHR ''{''" a "b @ CHR ''}'' # c"] obtain r' where
      "dropWhile (\<lambda>c. c \<noteq> CHR ''{'') reply_text = CHR ''{'' # r'" "CHR ''}'' \<in> set r'"
      unfolding split by auto
    with none show False by (simp add: json_match_def)
  qed
next
  assume no: "\<not> (\<exists>a b c. reply_text = a @ CHR ''{'' # b @ CHR ''}'' # c)"
  show "json_match reply_text = None"
  proof (cases "dropWhile (\<lambda>c. c \<noteq> CHR ''{'') reply_text")
    case Nil
    then show ?thesis by (simp add: json_match_def del: dropWhile_eq_Nil_conv)
  next
    case (Cons x rest)
    then have x: "x = CHR ''{''"
      using hd_dropWhile [of "\<lambda>c. c \<noteq> CHR ''{''" reply_text] by auto
    have split: "reply_text = takeWhile (\<lambda>c. c \<noteq> CHR ''{'') reply_text @ CHR ''{'' # rest"
      using takeWhile_dropWhile_id [of "\<lambda>c. c \<noteq> CHR ''{''" reply_text] Cons x by simp
    have "CHR ''}'' \<notin> set rest"
    proof
      assume "CHR ''}'' \<in> set rest"
      then obtain b c where "rest = b @ CHR ''}'' # c" by (auto dest: split_list)
      with split no show False by blast
    qed
    then show ?thesis using Cons by (simp add: json_match_def)
  qed
qed

text \<open>
  Claim C6, as the code has it. \<open>evaluateMentalHealth\<close> fails exactly when the provider call
  fails, or the answer holds no opening brace with a closing brace behind it, or the text
  between them does not parse. The error it throws is in each case the same
  \<open>Error('Failed to evaluate conversation')\<close>: the \<open>catch\<close> block replaces whatever the
  \<open>try\<close> block threw, so a caller cannot tell the kinds of failure apart.
\<close>

theorem evaluateMentalHealth_one_failure_kind:
  "evaluateMentalHealth g conversation = Inl e \<longleftrightarrow>
     e = Error ''Failed to evaluate conversation'' \<and>
     (case generateContent g (evaluationPrompt_head g @ conversation @ evaluationPrompt_tail g) of
        Inl provider_error \<Rightarrow> True
      | Inr text \<Rightarrow>
          \<not> (\<exists>a b c. text = a @ CHR ''{'' # b @ CHR ''}'' # c) \<or>
          (\<exists>m. json_match text = Some m \<and> parseEvaluation g m = None))"
proof (cases "generateContent g (evaluationPrompt_head g @ conversation @ evaluationPrompt_tail g)")
  case (Inl provider_error)
  then show ?thesis
    by (auto simp: evaluateMentalHealth_def evaluateMentalHealth_try_def)
next
  case (Inr answer_text)
  show ?thesis
  proof (cases "json_match answer_text")
    case None
    then show ?thesis using Inr json_match_None_iff [of answer_text]
      by (auto simp: evaluateMentalHealth_def evaluateMentalHealth_try_def)
  next
    case (Some m)
    then have "\<exists>a b c. answer_text = a @ CHR ''{'' # b @ CHR ''}'' # c"
      using json_match_None_iff [of answer_text] by auto
    then show ?thesis using Inr Some
      by (cases "parseEvaluation g m") (auto simp: evaluateMentalHealth_def evaluateMentalHealth_try_def)
  qed
qed

theorem evaluateMentalHealth_witness:
  "evaluateMentalHealth example_gemini ''User: hi'' = Inl (Error ''Failed to evaluate conversation'')"
  unfolding evaluateMentalHealth_one_failure_kind
  using json_match_None_iff [of "''I hear you.''"]
  by (simp add: json_match_def)

text \<open>
  The claim as stated fails: an answer without a JSON object and a provider failure raise
  different errors inside the \<open>try\<close> block, and \<open>evaluateMentalHealth\<close> throws the same error
  for both.
\<close>

theorem evaluateMentalHealth_same_error_counterexample:
  "evaluateMentalHealth_try example_gemini ''User: hi'' = Inl (Error ''Invalid evaluation format'') \<and>
   evaluateMentalHealth_try failing_gemini ''User: hi'' = Inl (Error ''503 Service Unavailable'') \<and>
   evaluateMentalHealth example_gemini ''User: hi'' = Inl (Error ''Failed to evaluate conversation'') \<and>
   evaluateMentalHealth failing_gemini ''User: hi'' = Inl (Error ''Failed to evaluate conversation'')"
  by (simp add: evaluateMentalHealth_def evaluateMentalHealth_try_def json_match_def)

section \<open>Session identifiers\<close>

lemma of_char_digit_char: "d < 10 \<Longrightarrow> (of_char (digit_char d) :: nat) = 48 + d"
  by (simp add: digit_char_def)

lemma digits_range:
  "c \<in> set (digits n) \<Longrightarrow> 48 \<le> (of_char c :: nat) \<and> (of_char c :: nat) < 58"
proof (induction n arbitrary: c rule: digits.induct)
  case (1 n)
  show ?case
  proof (cases "n < 10")
    case True
    with "1.prems" have "c = digit_char n" by (simp add: digits.simps [of n])
    with True show ?thesis by (simp add: of_char_digit_char)
  next
    case False
    with "1.prems" have "c \<in> set (digits (n div 10)) \<or> c = digit_char (n mod 10)"
      by (auto simp: digits.simps [of n])
    then show ?thesis
    proof
      assume "c \<in> set (digits (n div 10))"
      with "1.IH" False show ?thesis by simp
    next
      assume "c = digit_char (n mod 10)"
      then show ?thesis by (simp add: of_char_digit_char)
    qed
  qed
qed

lemma digits_value_digits: "digits_value (digits n) = n"
proof (induction n rule: digits.induct)
  case (1 n)
  show ?case
  proof (cases "n < 10")
    case True
    then show ?thesis
      by (simp add: digits.simps [of n] digits_value_def of_char_digit_char)
  next
    case False
    with "1.IH" have "digits_value (digits (n div 10)) = n div 10" by simp
    then show ?thesis using False
      by (simp add: digits.simps [of n] digits_value_def of_char_digit_char)
  qed
qed

lemma digits_inj:
  assumes "digits m = digits n"
  shows "m = n"
proof -
  have "digits_value (digits m) = digits_value (digits n)"
    using assms by (rule arg_cong)
  then show ?thesis by (simp only: digits_value_digits)
qed

lemma no_dash_in_digits: "CHR ''-'' \<notin> set (digits n)"
proof
  assume "CHR ''-'' \<in> set (digits n)"
  from digits_range [OF this] show False by simp
qed

lemma no_underscore_in_digits: "CHR ''_'' \<notin> set (digits n)"
proof
  assume "CHR ''_'' \<in> set (digits n)"
  from digits_range [OF this] show False by simp
qed

lemma dash_digits_neq: "CHR ''-'' # digits m \<noteq> digits n"
proof
  assume "CHR ''-'' # digits m = digits n"
  then have "CHR ''-'' \<in> set (digits n)" by (metis list.set_intros(1))
  with no_dash_in_digits show False by blast
qed

lemma number_text_inj:
  assumes eq: "number_text i = number_text j"
  shows "i = j"
proof (cases "i < 0")
  case ineg: True
  show ?thesis
  proof (cases "j < 0")
    case True
    from eq ineg True have "digits (nat (- i)) = digits (nat (- j))"
      by (simp add: number_text_def)
    then have "nat (- i) = nat (- j)" by (rule digits_inj)
    with ineg True show ?thesis by linarith
  next
    case False
    from eq ineg False have "CHR ''-'' # digits (nat (- i)) = digits (nat j)"
      by (simp add: number_text_def)
    with dash_digits_neq show ?thesis by blast
  qed
next
  case ipos: False
  show ?thesis
  proof (cases "j < 0")
    case True
    from eq ipos True have "CHR ''-'' # digits (nat (- j)) = digits (nat i)"
      by (simp add: number_text_def)
    with dash_digits_neq show ?thesis by blast
  next
    case False
    from eq ipos False have "digits (nat i) = digits (nat j)"
      by (simp add: number_text_def)
    then have "nat i = nat j" by (rule digits_inj)
    with ipos False show ?thesis by linarith
  qed
qed

lemma number_text_no_underscore: "CHR ''_'' \<notin> set (number_text i)"
  by (simp add: number_text_def no_underscore_in_digits)

lemma split_at_first:
  assumes "x \<notin> set xs" and "x \<notin> set xs'" and eq: "xs @ x # ys = xs' @ x # ys'"
  shows "xs = xs' \<and> ys = ys'"
proof -
  have t: "takeWhile (\<lambda>c. c \<noteq> x) (zs @ x # ws) = zs" if "x \<notin> set zs" for zs ws
    using that by (induction zs) auto
  have d: "dropWhile (\<lambda>c. c \<noteq> x) (zs @ x # ws) = x # ws" if "x \<notin> set zs" for zs ws
    using that by (induction zs) auto
  have "xs = xs'"
    using t [OF assms(1), of ys] t [OF assms(2), of ys'] eq by simp
  moreover have "x # ys = x # ys'"
    using d [OF assms(1), of ys] d [OF assms(2), of ys'] eq by simp
  ultimately show ?thesis by simp
qed

lemma session_id_of_inj:
  "session_id_of now rnd = session_id_of now' rnd' \<longleftrightarrow> now = now' \<and> rnd = rnd'"
proof
  assume "session_id_of now rnd = session_id_of now' rnd'"
  then have "number_text now @ CHR ''_'' # rnd = number_text now' @ CHR ''_'' # rnd'"
    by (simp add: session_id_of_def)
  then have "number_text now = number_text now' \<and> rnd = rnd'"
    by (rule split_at_first [OF number_text_no_underscore number_text_no_underscore])
  then show "now = now' \<and> rnd = rnd'"
    using number_text_inj by blast
next
  assume "now = now' \<and> rnd = rnd'"
  then show "session_id_of now rnd = session_id_of now' rnd'" by simp
qed

lemma createChatSession_eq:
  "createChatSession now rnd t1 t2 fs =
     Inr (session_id_of now rnd,
          Some (AList.update (getSessionPath (session_id_of now rnd))
             (Json \<lparr>id_field = session_id_of now rnd, messages = [], evaluation = None,
                    createdAt = t1, updatedAt = t2\<rparr>) (stored fs)))"
  by (simp add: createChatSession_def writeFileSync_def initializeStorage_stored
      JSON_stringify_def Let_def)

lemma digit_chars:
  "digit_char 0 = CHR ''0''" "digit_char 1 = CHR ''1''" "digit_char 2 = CHR ''2''"
  "digit_char 3 = CHR ''3''" "digit_char 4 = CHR ''4''" "digit_char 5 = CHR ''5''"
  "digit_char 6 = CHR ''6''" "digit_char 7 = CHR ''7''" "digit_char 8 = CHR ''8''"
  "digit_char 9 = CHR ''9''" "digit_char (Suc 0) = CHR ''1''"
  by code_simp+

lemma example_number_text:
  "number_text 1700000000123 = ''1700000000123''"
  "number_text 1700000000124 = ''1700000000124''"
  by (simp_all add: number_text_def digits.simps digit_chars)

text \<open>
  Claim C9, as the code has it. The identifier is made of the clock reading and the random
  characters and of nothing else, and it determines both: two calls of \<open>createChatSession\<close>
  return the same identifier exactly when \<open>Date.now()\<close> and the random characters are the
  same in both, and distinct identifiers whenever one of the two differs.
\<close>

theorem created_ids_differ_iff_components_differ:
  assumes "createChatSession now rnd t1 t2 fs = Inr (ident, fs1)"
    and "createChatSession now' rnd' t1' t2' fs' = Inr (ident', fs2)"
  shows "ident = ident' \<longleftrightarrow> now = now' \<and> rnd = rnd'"
  using assms session_id_of_inj [of now rnd now' rnd']
  by (simp add: createChatSession_eq)

theorem created_ids_witness:
  "createChatSession 1700000000123 ''k3v9x2a'' 1700000000123 1700000000123 None =
     Inr (''session_1700000000123_k3v9x2a'',
          Some [(''session_1700000000123_k3v9x2a.json'',
                 Json \<lparr>id_field = ''session_1700000000123_k3v9x2a'', messages = [],
                        evaluation = None, createdAt = 1700000000123,
                        updatedAt = 1700000000123\<rparr>)]) \<and>
   createChatSession 1700000000124 ''k3v9x2a'' 1700000000124 1700000000124 None =
     Inr (''session_1700000000124_k3v9x2a'',
          Some [(''session_1700000000124_k3v9x2a.json'',
                 Json \<lparr>id_field = ''session_1700000000124_k3v9x2a'', messages = [],
                        evaluation = None, createdAt = 1700000000124,
                        updatedAt = 1700000000124\<rparr>)]) \<and>
   ''session_1700000000123_k3v9x2a'' \<noteq> ''session_1700000000124_k3v9x2a''"
proof -
  have a: "createChatSession 1700000000123 ''k3v9x2a'' 1700000000123 1700000000123 None =
     Inr (''session_1700000000123_k3v9x2a'',
          Some [(''session_1700000000123_k3v9x2a.json'',
                 Json \<lparr>id_field = ''session_1700000000123_k3v9x2a'', messages = [],
                        evaluation = None, createdAt = 1700000000123,
                        updatedAt = 1700000000123\<rparr>)])"
    by (simp add: createChatSession_eq session_id_of_def example_number_text
        getSessionPath_def stored_def)
  have b: "createChatSession 1700000000124 ''k3v9x2a'' 1700000000124 1700000000124 None =
     Inr (''session_1700000000124_k3v9x2a'',
          Some [(''session_1700000000124_k3v9x2a.json'',
                 Json \<lparr>id_field = ''session_1700000000124_k3v9x2a'', messages = [],
                        evaluation = None, createdAt = 1700000000124,
                        updatedAt = 1700000000124\<rparr>)])"
    by (simp add: createChatSession_eq session_id_of_def example_number_text
        getSessionPath_def stored_def)
  from created_ids_differ_iff_components_differ [OF a b]
  have "''session_1700000000123_k3v9x2a'' \<noteq> ''session_1700000000124_k3v9x2a''" by simp
  with a b show ?thesis by blast
qed

text \<open>
  The claim as stated fails: a second creation in the same millisecond that draws the same
  random characters returns the identifier of the first, and writes over its record.
\<close>

theorem created_ids_collide_counterexample:
  "createChatSession 1700000000123 ''k3v9x2a'' 1700000000123 1700000000123 None =
     Inr (''session_1700000000123_k3v9x2a'',
          Some [(''session_1700000000123_k3v9x2a.json'',
                 Json \<lparr>id_field = ''session_1700000000123_k3v9x2a'', messages = [],
                        evaluation = None, createdAt = 1700000000123,
                        updatedAt = 1700000000123\<rparr>)]) \<and>
   createChatSession 1700000000123 ''k3v9x2a'' 1700000000123 1700000000123
       (Some [(''session_1700000000123_k3v9x2a.json'',
               Json \<lparr>id_field = ''session_1700000000123_k3v9x2a'', messages = [],
                      evaluation = None, createdAt = 1700000000123,
                      updatedAt = 1700000000123\<rparr>)]) =
     Inr (''session_1700000000123_k3v9x2a'',
          Some [(''session_1700000000123_k3v9x2a.json'',
                 Json \<lparr>id_field = ''session_1700000000123_k3v9x2a'', messages = [],
                        evaluation = None, createdAt = 1700000000123,
                        updatedAt = 1700000000123\<rparr>)])"
  by (simp add: createChatSession_eq session_id_of_def example_number_text
      getSessionPath_def stored_def)

end
